theory Spec2Isabelle
  imports Main
begin

section \<open>Section numbering: \<open>toRoman\<close> (App.jsx, lines 319-344)\<close>

text \<open>
  The table \<open>romanNumerals\<close> is an array of objects \<open>{ value, numeral }\<close> (the fields
  carry the prefix \<open>entry_\<close> here, \<open>numeral\<close> being a constant of HOL). The argument
  \<open>num\<close> is a JavaScript number; the only call sites pass \<open>index + 1\<close> for an array index,
  so it is modelled as an unbounded integer.
\<close>

record roman_entry =
  entry_value :: int
  entry_numeral :: string

definition romanNumerals :: "roman_entry list" where
  "romanNumerals =
     [\<lparr>entry_value = 1000, entry_numeral = ''M''\<rparr>,
      \<lparr>entry_value = 900, entry_numeral = ''CM''\<rparr>,
      \<lparr>entry_value = 500, entry_numeral = ''D''\<rparr>,
      \<lparr>entry_value = 400, entry_numeral = ''CD''\<rparr>,
      \<lparr>entry_value = 100, entry_numeral = ''C''\<rparr>,
      \<lparr>entry_value = 90, entry_numeral = ''XC''\<rparr>,
      \<lparr>entry_value = 50, entry_numeral = ''L''\<rparr>,
      \<lparr>entry_value = 40, entry_numeral = ''XL''\<rparr>,
      \<lparr>entry_value = 10, entry_numeral = ''X''\<rparr>,
      \<lparr>entry_value = 9, entry_numeral = ''IX''\<rparr>,
      \<lparr>entry_value = 5, entry_numeral = ''V''\<rparr>,
      \<lparr>entry_value = 4, entry_numeral = ''IV''\<rparr>,
      \<lparr>entry_value = 1, entry_numeral = ''I''\<rparr>]"

text \<open>
  The inner loop \<open>while (num >= value) { result += numeral; num -= value; }\<close> on the
  loop state \<open>(result, num)\<close>. For a value that is not positive the loop of the source
  does not stop, so the model returns an option: \<open>None\<close> is "does not return".
\<close>

partial_function (option) roman_while :: "int \<Rightarrow> string \<Rightarrow> string \<times> int \<Rightarrow> (string \<times> int) option" where
  "roman_while v s st =
     (if snd st \<ge> v then roman_while v s (fst st @ s, snd st - v) else Some st)"

declare roman_while.simps [code]

text \<open>The outer loop \<open>for (const { value, numeral } of romanNumerals)\<close>.\<close>

fun roman_for :: "roman_entry list \<Rightarrow> string \<times> int \<Rightarrow> (string \<times> int) option" where
  "roman_for [] st = Some st"
| "roman_for (e # es) st =
     (case roman_while (entry_value e) (entry_numeral e) st of
        None \<Rightarrow> None
      | Some st' \<Rightarrow> roman_for es st')"

definition toRoman :: "int \<Rightarrow> string option" where
  "toRoman num = map_option fst (roman_for romanNumerals ('''', num))"

subsection \<open>The encoder as the specification words it\<close>

text \<open>
  "Repeatedly subtract the largest table value not exceeding \<open>n\<close>, appending its symbol,
  until \<open>n\<close> reaches 0." \<open>max_entry\<close> picks an entry of largest value from a list,
  \<open>largest_not_exceeding\<close> the one among the table entries whose value is at most \<open>n\<close>.
  The contract is given for \<open>n\<close> from 1 on; below 1 there is nothing to subtract, and
  \<open>greedy_subtraction\<close> is the empty string there.
\<close>

fun max_entry :: "roman_entry list \<Rightarrow> roman_entry option" where
  "max_entry [] = None"
| "max_entry (e # es) =
     (case max_entry es of
        None \<Rightarrow> Some e
      | Some m \<Rightarrow> if entry_value e < entry_value m then Some m else Some e)"

definition largest_in :: "roman_entry list \<Rightarrow> int \<Rightarrow> roman_entry option" where
  "largest_in es n = max_entry (filter (\<lambda>e. entry_value e \<le> n) es)"

definition largest_not_exceeding :: "int \<Rightarrow> roman_entry option" where
  "largest_not_exceeding n = largest_in romanNumerals n"

text \<open>Strictly descending values, the order of the table.\<close>

definition strict_desc :: "roman_entry list \<Rightarrow> bool" where
  "strict_desc es = sorted_wrt (\<lambda>a b. entry_value b < entry_value a) es"

text \<open>
  The recursion stops: an entry that \<open>largest_not_exceeding\<close> returns is an entry of the
  table, whose values are all at least 1.
\<close>

function greedy_subtraction :: "int \<Rightarrow> string" where
  "greedy_subtraction n =
     (if n \<le> 0 then ''''
      else case largest_not_exceeding n of
             None \<Rightarrow> ''''
           | Some e \<Rightarrow> entry_numeral e @ greedy_subtraction (n - entry_value e))"
  by pat_completeness auto
termination
proof (relation "measure nat")
  fix n :: int and e :: roman_entry
  assume n: "\<not> n \<le> 0" and e: "largest_not_exceeding n = Some e"
  have mem: "m \<in> set es" if "max_entry es = Some m" for es m
    using that by (induction es arbitrary: m) (auto split: option.splits if_splits)
  from e have "e \<in> set (filter (\<lambda>e. entry_value e \<le> n) romanNumerals)"
    unfolding largest_not_exceeding_def largest_in_def by (rule mem)
  then have "e \<in> set romanNumerals"
    by simp
  then have "1 \<le> entry_value e"
    by (auto simp: romanNumerals_def)
  with n show "(n - entry_value e, n) \<in> measure nat"
    by simp
qed simp

declare greedy_subtraction.simps [simp del]

text \<open>
  The standard (positional) form of a Roman numeral below 4000: one block per decimal digit,
  thousands first. It is the reference for "canonical".
\<close>

definition units_digits :: "string list" where
  "units_digits = ['''', ''I'', ''II'', ''III'', ''IV'', ''V'', ''VI'', ''VII'', ''VIII'', ''IX'']"

definition tens_digits :: "string list" where
  "tens_digits = ['''', ''X'', ''XX'', ''XXX'', ''XL'', ''L'', ''LX'', ''LXX'', ''LXXX'', ''XC'']"

definition hundreds_digits :: "string list" where
  "hundreds_digits = ['''', ''C'', ''CC'', ''CCC'', ''CD'', ''D'', ''DC'', ''DCC'', ''DCCC'', ''CM'']"

definition thousands_digits :: "string list" where
  "thousands_digits = ['''', ''M'', ''MM'', ''MMM'']"

definition standard_numeral :: "int \<Rightarrow> string" where
  "standard_numeral n =
     thousands_digits ! nat (n div 1000) @ hundreds_digits ! nat (n div 100 mod 10) @
     tens_digits ! nat (n div 10 mod 10) @ units_digits ! nat (n mod 10)"

section \<open>The document state (App.jsx, lines 5-20)\<close>

record author =
  firstName :: string
  lastName :: string
  membership :: string
  department :: string
  organization :: string
  cityCountry :: string
  email :: string

text \<open>
  A section object has the keys \<open>title\<close> and \<open>content\<close>, and \<open>subsections\<close> when it
  was created with one: of the two default sections only the second has the key.
\<close>

datatype paper_section =
  Section (section_title: string) (section_content: string) (subsections: "paper_section list option")

record formData =
  title :: string
  paperNotice :: string
  funding :: string
  dropCap :: bool
  authors :: "author list"
  abstract :: string
  "keywords" :: string
  sections :: "paper_section list"
  references :: string

definition emptyAuthor :: author where
  "emptyAuthor =
     \<lparr>firstName = '''', lastName = '''', membership = '''', department = '''',
      organization = '''', cityCountry = '''', email = ''''\<rparr>"

definition initialFormData :: formData where
  "initialFormData =
     \<lparr>title = '''', paperNotice = '''', funding = '''', dropCap = True,
      authors = [emptyAuthor], abstract = '''', keywords = '''',
      sections = [Section ''Introduction'' '''' None, Section ''Section II'' '''' (Some [])],
      references = ''''\<rparr>"

text \<open>The component's state: \<open>formData\<close> and \<open>pdfUrl\<close> (\<open>null\<close> is \<open>None\<close>).\<close>

record app_state =
  formData :: formData
  pdfUrl :: "string option"

definition initialState :: app_state where
  "initialState = \<lparr>formData = initialFormData, pdfUrl = None\<rparr>"

section \<open>Section labels (App.jsx, lines 270-273)\<close>

text \<open>
  The label of the section rendered at position \<open>index\<close> of \<open>formData.sections.map\<close>:
  \<open>index === 0 ? 'Introduction' : `Section ${toRoman(index + 1)}`\<close>. The label does not
  read the section itself. It is an option because \<open>toRoman\<close> is one: \<open>None\<close> would be a
  label that is never rendered.
\<close>

definition sectionLabel :: "nat \<Rightarrow> string option" where
  "sectionLabel index =
     (if index = 0 then Some ''Introduction''
      else map_option (\<lambda>r. ''Section '' @ r) (toRoman (int index + 1)))"

definition sectionLabels :: "paper_section list \<Rightarrow> string option list" where
  "sectionLabels sects = map (\<lambda>(index, sect). sectionLabel index) (enumerate 0 sects)"

section \<open>The handlers that edit the document (App.jsx, lines 22-55 and 276-280)\<close>

text \<open>
  A handler is created by a render and closes over the \<open>formData\<close> of that render; the
  updater it passes to \<open>setFormData\<close> receives the state at the time of the update as
  \<open>prev\<close>. The two differ when the handler is called after the state has moved on, as for
  a second call from the same render. So a handler that reads \<open>formData\<close> takes two
  documents: \<open>rendered\<close>, the \<open>formData\<close> it closes over as it reads at the call, and
  \<open>prev\<close>; the result is the document that the updater returns. A handler that throws has
  set no state.
\<close>

datatype js_error = TypeError

text \<open>
  \<open>handleInputChange(field, value)\<close> as it is called: with a string for the text fields
  and with \<open>e.target.checked\<close> for \<open>dropCap\<close>. It reads \<open>prev\<close> only.
\<close>

datatype input_change =
  SetTitle string
| SetPaperNotice string
| SetFunding string
| SetDropCap bool
| SetAbstract string
| SetKeywords string
| SetReferences string

fun handleInputChange :: "input_change \<Rightarrow> formData \<Rightarrow> formData" where
  "handleInputChange (SetTitle v) prev = prev\<lparr>title := v\<rparr>"
| "handleInputChange (SetPaperNotice v) prev = prev\<lparr>paperNotice := v\<rparr>"
| "handleInputChange (SetFunding v) prev = prev\<lparr>funding := v\<rparr>"
| "handleInputChange (SetDropCap b) prev = prev\<lparr>dropCap := b\<rparr>"
| "handleInputChange (SetAbstract v) prev = prev\<lparr>abstract := v\<rparr>"
| "handleInputChange (SetKeywords v) prev = prev\<lparr>keywords := v\<rparr>"
| "handleInputChange (SetReferences v) prev = prev\<lparr>references := v\<rparr>"

datatype author_field =
  FirstName | LastName | Membership | Department | Organization | CityCountry | Email

text \<open>\<open>author[field] = value\<close> and \<open>author[field]\<close>.\<close>

fun set_author_field :: "author_field \<Rightarrow> string \<Rightarrow> author \<Rightarrow> author" where
  "set_author_field FirstName v a = a\<lparr>firstName := v\<rparr>"
| "set_author_field LastName v a = a\<lparr>lastName := v\<rparr>"
| "set_author_field Membership v a = a\<lparr>membership := v\<rparr>"
| "set_author_field Department v a = a\<lparr>department := v\<rparr>"
| "set_author_field Organization v a = a\<lparr>organization := v\<rparr>"
| "set_author_field CityCountry v a = a\<lparr>cityCountry := v\<rparr>"
| "set_author_field Email v a = a\<lparr>email := v\<rparr>"


text \<open>
  \<open>handleAuthorChange(index, field, value)\<close> (lines 29-36) copies the array of the render,
  \<open>[...formData.authors]\<close>, assigns \<open>updatedAuthors[index][field] = value\<close>, and the
  updater returns \<open>prev\<close> with that copy as its \<open>authors\<close>. The code checks no index:
  where \<open>index\<close> is no position of the copied array, \<open>updatedAuthors[index]\<close> is
  \<open>undefined\<close> and the assignment throws a \<open>TypeError\<close> before \<open>setFormData\<close> is
  reached. The author objects of an array are distinct objects (each comes from its own
  object literal), so the assignment changes one entry of the copy. The copy is shallow:
  the assignment goes through to the author object, which the render's own array holds
  too, so a later call from the same render reads the changed author. That is why
  \<open>rendered\<close> is the render's document as it reads when the handler is called, not as it
  was when the render was made.
\<close>

definition handleAuthorChange ::
  "int \<Rightarrow> author_field \<Rightarrow> string \<Rightarrow> formData \<Rightarrow> formData \<Rightarrow> js_error + formData" where
  "handleAuthorChange index field v rendered prev =
     (if 0 \<le> index \<and> index < int (length (authors rendered))
      then Inr (prev\<lparr>authors :=
                  (authors rendered)[nat index :=
                     set_author_field field v (authors rendered ! nat index)]\<rparr>)
      else Inl TypeError)"

text \<open>
  \<open>addAuthor\<close> (lines 38-45): the test \<open>formData.authors.length < 6\<close> reads the render,
  the updater appends to \<open>prev.authors\<close>.
\<close>

definition addAuthor :: "formData \<Rightarrow> formData \<Rightarrow> formData" where
  "addAuthor rendered prev =
     (if length (authors rendered) < 6
      then prev\<lparr>authors := authors prev @ [emptyAuthor]\<rparr>
      else prev)"

text \<open>
  \<open>removeAuthor(index)\<close> (lines 47-55): the test \<open>formData.authors.length > 1\<close> and
  \<open>formData.authors.filter((_, i) => i !== index)\<close> both read the render; the updater
  returns \<open>prev\<close> with the filtered array as its \<open>authors\<close>.
\<close>

definition filter_index :: "int \<Rightarrow> 'a list \<Rightarrow> 'a list" where
  "filter_index index xs = map snd (filter (\<lambda>(i, _). int i \<noteq> index) (enumerate 0 xs))"

definition removeAuthor :: "int \<Rightarrow> formData \<Rightarrow> formData \<Rightarrow> formData" where
  "removeAuthor index rendered prev =
     (if length (authors rendered) > 1
      then prev\<lparr>authors := filter_index index (authors rendered)\<rparr>
      else prev)"

text \<open>
  The body of the \<open>onChange\<close> handler of a section's textarea (lines 276-280), for the
  \<open>index\<close> it closes over: \<open>[...formData.sections]\<close> is copied,
  \<open>updatedSections[index].content = e.target.value\<close> assigned (which throws like
  \<open>handleAuthorChange\<close> where \<open>index\<close> is no position of the copy), and the updater
  returns \<open>prev\<close> with the copy as its \<open>sections\<close>.
\<close>

fun set_content :: "string \<Rightarrow> paper_section \<Rightarrow> paper_section" where
  "set_content v (Section t c subs) = Section t v subs"

definition sectionContentChange ::
  "int \<Rightarrow> string \<Rightarrow> formData \<Rightarrow> formData \<Rightarrow> js_error + formData" where
  "sectionContentChange index v rendered prev =
     (if 0 \<le> index \<and> index < int (length (sections rendered))
      then Inr (prev\<lparr>sections :=
                  (sections rendered)[nat index := set_content v (sections rendered ! nat index)]\<rparr>)
      else Inl TypeError)"

text \<open>
  The handler has no name and takes no index: a render creates one per section, inside
  \<open>formData.sections.map((section, index) => ...)\<close> (line 270), each closing over the
  \<open>index\<close> of its section. \<open>sectionHandlers\<close> are the handlers of a render, in the order
  of the textareas; each takes the new text and \<open>prev\<close>.
\<close>

definition sectionHandlers :: "formData \<Rightarrow> (string \<Rightarrow> formData \<Rightarrow> js_error + formData) list" where
  "sectionHandlers rendered =
     map (\<lambda>(index, sect). \<lambda>v prev. sectionContentChange (int index) v rendered prev)
         (enumerate 0 (sections rendered))"

section \<open>Generating the PDF (App.jsx, lines 57-89)\<close>

text \<open>
  \<open>JSON.stringify(formData)\<close>, as the JSON value that the text denotes. An object lists
  its own keys in the order of their creation; a key whose value is \<open>undefined\<close> is left out.
\<close>

datatype json =
  JString string
| JBool bool
| JArray "json list"
| JObject "(string \<times> json) list"

definition author_json :: "author \<Rightarrow> json" where
  "author_json a =
     JObject [(''firstName'', JString (firstName a)), (''lastName'', JString (lastName a)),
              (''membership'', JString (membership a)), (''department'', JString (department a)),
              (''organization'', JString (organization a)), (''cityCountry'', JString (cityCountry a)),
              (''email'', JString (email a))]"

fun section_json :: "paper_section \<Rightarrow> json" where
  "section_json (Section t c subs) =
     JObject ([(''title'', JString t), (''content'', JString c)] @
              (case subs of
                 None \<Rightarrow> []
               | Some ss \<Rightarrow> [(''subsections'', JArray (map section_json ss))]))"

definition formData_json :: "formData \<Rightarrow> json" where
  "formData_json d =
     JObject [(''title'', JString (title d)), (''paperNotice'', JString (paperNotice d)),
              (''funding'', JString (funding d)), (''dropCap'', JBool (dropCap d)),
              (''authors'', JArray (map author_json (authors d))),
              (''abstract'', JString (abstract d)), (''keywords'', JString (keywords d)),
              (''sections'', JArray (map section_json (sections d))),
              (''references'', JString (references d))]"

text \<open>The names of an object's members, in order.\<close>

fun member_names :: "json \<Rightarrow> string list" where
  "member_names (JObject kvs) = map fst kvs"
| "member_names _ = []"

text \<open>The arguments of the \<open>fetch\<close> call.\<close>

record request =
  url :: string
  http_method :: string
  headers :: "(string \<times> string) list"
  body :: json

definition generate_request :: "formData \<Rightarrow> request" where
  "generate_request d =
     \<lparr>url = ''/api/generate-pdf'', http_method = ''POST'',
      headers = [(''Content-Type'', ''application/json'')],
      body = formData_json d\<rparr>"

text \<open>
  What the environment answers. \<open>NetworkError msg\<close>: the promise of \<open>fetch\<close> rejects, no
  response was received. \<open>Response status b\<close>: it resolves with a response of that status,
  and \<open>response.blob()\<close> rejects with a message (\<open>Inl\<close>) or resolves with a blob (\<open>Inr\<close>),
  named by the identifier under which \<open>URL.createObjectURL\<close> registers it (an object
  URL is \<open>blob:\<close> followed by that identifier, so it is never the empty string).
  \<open>response.ok\<close> is true for the statuses 200 to 299.
\<close>

datatype fetch_outcome =
  NetworkError string
| Response nat "string + string"

definition ok :: "nat \<Rightarrow> bool" where
  "ok status = (200 \<le> status \<and> status \<le> 299)"

definition createObjectURL :: "string \<Rightarrow> string" where
  "createObjectURL blob_id = ''blob:'' @ blob_id"

text \<open>
  \<open>handleSubmit\<close>, with the answer of the environment as an argument. The request is built
  from the \<open>formData\<close> of the call and sent in every case. In the \<open>try\<close> block,
  \<open>response.ok\<close> chooses between \<open>setPdfUrl(url)\<close> for the object URL of the blob and
  \<open>console.error('Error generating PDF')\<close>; a rejection of \<open>fetch\<close> or of
  \<open>response.blob()\<close> reaches the \<open>catch\<close> block, which writes
  \<open>console.error('Error:', error)\<close>. The handler returns nothing: its effects are the
  request, the state it sets and the console output. \<open>setPdfUrl\<close> is its only write to
  the state and no other handler writes \<open>pdfUrl\<close>, so an exchange is taken as one step.
\<close>

datatype console_entry = ConsoleError "string list"

record submit_result =
  request_sent :: request
  state_after :: app_state
  console :: "console_entry list"

definition handleSubmit :: "fetch_outcome \<Rightarrow> app_state \<Rightarrow> submit_result" where
  "handleSubmit outcome s =
     (let req = generate_request (formData s) in
      case outcome of
        NetworkError msg \<Rightarrow>
          \<lparr>request_sent = req, state_after = s, console = [ConsoleError [''Error:'', msg]]\<rparr>
      | Response status b \<Rightarrow>
          if ok status then
            (case b of
               Inl msg \<Rightarrow>
                 \<lparr>request_sent = req, state_after = s, console = [ConsoleError [''Error:'', msg]]\<rparr>
             | Inr blob_id \<Rightarrow>
                 \<lparr>request_sent = req, state_after = s\<lparr>pdfUrl := Some (createObjectURL blob_id)\<rparr>,
                  console = []\<rparr>)
          else
            \<lparr>request_sent = req, state_after = s, console = [ConsoleError [''Error generating PDF'']]\<rparr>)"

text \<open>
  \<open>downloadPdf\<close>: \<open>if (pdfUrl)\<close> tests truthiness (\<open>null\<close> and the empty string are
  falsy); the link that is created and clicked is the result, \<open>None\<close> when nothing happens.
  The function sets no state.
\<close>

record anchor =
  href :: string
  download :: string

definition downloadPdf :: "app_state \<Rightarrow> anchor option" where
  "downloadPdf s =
     (case pdfUrl s of
        None \<Rightarrow> None
      | Some str \<Rightarrow>
          if str \<noteq> ''''
          then Some \<lparr>href = str, download = ''ieee_conference_paper.pdf''\<rparr>
          else None)"

text \<open>
  What \<open>handleSubmit\<close> gives its caller. It is an \<open>async\<close> function with no
  \<open>return\<close> statement whose whole body after \<open>e.preventDefault()\<close> is one \<open>try\<close> with
  a \<open>catch\<close> that only writes to the console: on every path the function ends normally,
  so the promise it returns is fulfilled (with \<open>undefined\<close>), never rejected.
\<close>

datatype settlement = Fulfilled | Rejected string

definition handleSubmit_promise :: "fetch_outcome \<Rightarrow> app_state \<Rightarrow> settlement" where
  "handleSubmit_promise outcome s =
     (case outcome of
        NetworkError msg \<Rightarrow> Fulfilled
      | Response status b \<Rightarrow>
          if ok status then (case b of Inl msg \<Rightarrow> Fulfilled | Inr blob_id \<Rightarrow> Fulfilled)
          else Fulfilled)"

section \<open>Sessions\<close>

text \<open>
  A session is a sequence of handler calls, starting from \<open>initialState\<close>. An event names
  the handler that is called and, for a handler that reads the \<open>formData\<close> of its render,
  that document as it reads at the call. Any document may stand there, so the sessions of
  the program are among the sessions of the model, and what holds of every session of the
  model holds of the program. A section handler is named by the render and its position
  among that render's textareas; where the render has no such textarea, nothing is called.
\<close>

datatype event =
  InputChange input_change
| AuthorChange formData int author_field string
| AddAuthor formData
| RemoveAuthor formData int
| SectionChange formData nat string
| Submit fetch_outcome
| Download

fun step :: "event \<Rightarrow> app_state \<Rightarrow> app_state" where
  "step (InputChange c) s = s\<lparr>formData := handleInputChange c (formData s)\<rparr>"
| "step (AuthorChange rendered index field v) s =
     (case handleAuthorChange index field v rendered (formData s) of
        Inl err \<Rightarrow> s
      | Inr d \<Rightarrow> s\<lparr>formData := d\<rparr>)"
| "step (AddAuthor rendered) s = s\<lparr>formData := addAuthor rendered (formData s)\<rparr>"
| "step (RemoveAuthor rendered index) s = s\<lparr>formData := removeAuthor index rendered (formData s)\<rparr>"
| "step (SectionChange rendered position v) s =
     (if position < length (sectionHandlers rendered)
      then (case (sectionHandlers rendered ! position) v (formData s) of
              Inl err \<Rightarrow> s
            | Inr d \<Rightarrow> s\<lparr>formData := d\<rparr>)
      else s)"
| "step (Submit outcome) s = state_after (handleSubmit outcome s)"
| "step Download s = s"

definition run :: "event list \<Rightarrow> app_state \<Rightarrow> app_state" where
  "run evs s = fold step evs s"

text \<open>A submit whose exchange ends with a stored object URL.\<close>

fun successful_submit :: "event \<Rightarrow> bool" where
  "successful_submit (Submit (Response status (Inr blob_id))) = ok status"
| "successful_submit _ = False"

text \<open>
  The sessions in which every handler is called from the latest render: the document an
  event carries is the document of the state it meets.
\<close>

fun rendered_of :: "event \<Rightarrow> formData option" where
  "rendered_of (AuthorChange rendered index field v) = Some rendered"
| "rendered_of (AddAuthor rendered) = Some rendered"
| "rendered_of (RemoveAuthor rendered index) = Some rendered"
| "rendered_of (SectionChange rendered position v) = Some rendered"
| "rendered_of _ = None"

fun latest_render :: "event list \<Rightarrow> app_state \<Rightarrow> bool" where
  "latest_render [] s = True"
| "latest_render (e # es) s =
     ((case rendered_of e of None \<Rightarrow> True | Some rendered \<Rightarrow> rendered = formData s) \<and>
      latest_render es (step e s))"

section \<open>The form's required inputs (App.jsx, lines 99-304)\<close>

text \<open>
  The controls the form renders, in document order, each with its current value and whether
  it carries the attribute \<open>required\<close>. \<open>handleSubmit\<close> reads none of this; a required text
  control whose value is the empty string is what a browser reports as missing.
\<close>

datatype control =
  TitleInput
| PaperNoticeInput
| FundingInput
| DropCapInput
| AuthorInput nat author_field
| AbstractInput
| KeywordsInput
| SectionInput nat
| ReferencesInput

datatype control_value = TextValue string | CheckedValue bool

record form_input =
  input_control :: control
  input_value :: control_value
  required :: bool

definition authorInputs :: "nat \<Rightarrow> author \<Rightarrow> form_input list" where
  "authorInputs index a =
     [\<lparr>input_control = AuthorInput index FirstName, input_value = TextValue (firstName a), required = True\<rparr>,
      \<lparr>input_control = AuthorInput index LastName, input_value = TextValue (lastName a), required = True\<rparr>,
      \<lparr>input_control = AuthorInput index Membership, input_value = TextValue (membership a), required = False\<rparr>,
      \<lparr>input_control = AuthorInput index Department, input_value = TextValue (department a), required = True\<rparr>,
      \<lparr>input_control = AuthorInput index Organization, input_value = TextValue (organization a), required = True\<rparr>,
      \<lparr>input_control = AuthorInput index CityCountry, input_value = TextValue (cityCountry a), required = True\<rparr>,
      \<lparr>input_control = AuthorInput index Email, input_value = TextValue (email a), required = True\<rparr>]"

definition sectionInput :: "nat \<Rightarrow> paper_section \<Rightarrow> form_input" where
  "sectionInput index sect =
     \<lparr>input_control = SectionInput index, input_value = TextValue (section_content sect), required = False\<rparr>"

definition formInputs :: "formData \<Rightarrow> form_input list" where
  "formInputs d =
     [\<lparr>input_control = TitleInput, input_value = TextValue (title d), required = True\<rparr>,
      \<lparr>input_control = PaperNoticeInput, input_value = TextValue (paperNotice d), required = False\<rparr>,
      \<lparr>input_control = FundingInput, input_value = TextValue (funding d), required = False\<rparr>,
      \<lparr>input_control = DropCapInput, input_value = CheckedValue (dropCap d), required = False\<rparr>] @
     concat (map (\<lambda>(index, a). authorInputs index a) (enumerate 0 (authors d))) @
     [\<lparr>input_control = AbstractInput, input_value = TextValue (abstract d), required = True\<rparr>,
      \<lparr>input_control = KeywordsInput, input_value = TextValue (keywords d), required = True\<rparr>] @
     map (\<lambda>(index, sect). sectionInput index sect) (enumerate 0 (sections d)) @
     [\<lparr>input_control = ReferencesInput, input_value = TextValue (references d), required = False\<rparr>]"

definition valueMissing :: "form_input \<Rightarrow> bool" where
  "valueMissing i = (required i \<and> input_value i = TextValue '''')"

definition missingRequired :: "formData \<Rightarrow> control list" where
  "missingRequired d = map input_control (filter valueMissing (formInputs d))"


text \<open>
  Submitting the form. \<open>handleSubmit\<close> has one caller, the \<open>onSubmit\<close> of the form
  (line 99), and the form has no \<open>noValidate\<close>: a submission through the form (the submit
  button, or \<open>requestSubmit\<close>) validates the controls first, and where a required control
  is missing its value the submit event is not fired. Then \<open>handleSubmit\<close> does not run:
  no request is sent, nothing is written and no state is set; the browser marks the
  controls that are missing a value instead.
\<close>

datatype form_submission =
  Blocked "control list"
| Handled submit_result

definition submitForm :: "fetch_outcome \<Rightarrow> app_state \<Rightarrow> form_submission" where
  "submitForm outcome s =
     (if missingRequired (formData s) = []
      then Handled (handleSubmit outcome s)
      else Blocked (missingRequired (formData s)))"

subsection \<open>Validation as the specification words it\<close>

text \<open>
  The invariants that the specification's \<open>validateForSubmission\<close> lists: the author count
  is between 1 and 6; every required field of the document and of each author is "non-empty
  after trimming whitespace"; \<open>sections\<close> is non-empty. The source has no such operation;
  this one is here to be compared with what the form does.
\<close>

definition whitespace :: "char \<Rightarrow> bool" where
  "whitespace c = (c \<in> set [CHR '' '', CHR 0x09, CHR 0x0A, CHR 0x0D])"

definition trim :: "string \<Rightarrow> string" where
  "trim str = rev (dropWhile whitespace (rev (dropWhile whitespace str)))"

datatype violation =
  AuthorCountOutOfRange
| RequiredFieldEmpty control
| NoSections

definition spec_required_fields :: "formData \<Rightarrow> (control \<times> string) list" where
  "spec_required_fields d =
     [(TitleInput, title d)] @
     concat (map (\<lambda>(index, a).
                    [(AuthorInput index FirstName, firstName a), (AuthorInput index LastName, lastName a),
                     (AuthorInput index Department, department a),
                     (AuthorInput index Organization, organization a),
                     (AuthorInput index CityCountry, cityCountry a), (AuthorInput index Email, email a)])
                 (enumerate 0 (authors d))) @
     [(AbstractInput, abstract d), (KeywordsInput, keywords d)]"

definition validateForSubmission_spec :: "formData \<Rightarrow> violation list" where
  "validateForSubmission_spec d =
     (if 1 \<le> length (authors d) \<and> length (authors d) \<le> 6 then [] else [AuthorCountOutOfRange]) @
     map (\<lambda>(c, v). RequiredFieldEmpty c) (filter (\<lambda>(c, v). trim v = '''') (spec_required_fields d)) @
     (if sections d = [] then [NoSections] else [])"

section \<open>Example documents\<close>

text \<open>A document with a full roster, one with three named authors and one with two.\<close>

definition six_authors :: formData where
  "six_authors = initialFormData\<lparr>authors := replicate 6 emptyAuthor\<rparr>"



text \<open>The initial state with an object URL already stored.\<close>

definition state_with_pdf :: app_state where
  "state_with_pdf = initialState\<lparr>pdfUrl := Some ''blob:0''\<rparr>"

text \<open>The default document after one blank was typed into every required input.\<close>

definition blanks_document :: formData where
  "blanks_document =
     initialFormData\<lparr>title := '' '',
       authors := [\<lparr>firstName = '' '', lastName = '' '', membership = '''', department = '' '',
                    organization = '' '', cityCountry = '' '', email = '' ''\<rparr>],
       abstract := '' '', keywords := '' ''\<rparr>"

section \<open>Properties of the encoder\<close>

lemma max_entry_mem: "max_entry es = Some m \<Longrightarrow> m \<in> set es"
  by (induction es arbitrary: m) (auto split: option.splits if_splits)

lemma romanNumerals_positive: "e \<in> set romanNumerals \<Longrightarrow> 1 \<le> entry_value e"
  by (auto simp: romanNumerals_def)

lemma romanNumerals_desc: "strict_desc romanNumerals"
  by (simp add: strict_desc_def romanNumerals_def)

lemma largest_in_skip:
  "\<forall>e\<in>set pre. n < entry_value e \<Longrightarrow> largest_in (pre @ post) n = largest_in post n"
proof -
  assume "\<forall>e\<in>set pre. n < entry_value e"
  then have "filter (\<lambda>e. entry_value e \<le> n) pre = []"
    by (auto simp: filter_empty_conv)
  then show ?thesis by (simp add: largest_in_def)
qed

lemma max_entry_head:
  "\<forall>x\<in>set es. entry_value x < entry_value e \<Longrightarrow> max_entry (e # es) = Some e"
proof (cases "max_entry es")
  case None
  then show ?thesis by simp
next
  case (Some m)
  assume "\<forall>x\<in>set es. entry_value x < entry_value e"
  moreover from Some have "m \<in> set es" by (rule max_entry_mem)
  ultimately have "entry_value m < entry_value e" by blast
  with Some show ?thesis by simp
qed

lemma largest_in_head:
  assumes "entry_value e \<le> n" and "\<forall>x\<in>set rest. entry_value x < entry_value e"
  shows "largest_in (e # rest) n = Some e"
proof -
  have "\<forall>x\<in>set (filter (\<lambda>e. entry_value e \<le> n) rest). entry_value x < entry_value e"
    using assms(2) by simp
  then have "max_entry (e # filter (\<lambda>e. entry_value e \<le> n) rest) = Some e"
    by (rule max_entry_head)
  with assms(1) show ?thesis by (simp add: largest_in_def)
qed

lemma roman_while_stop: "num < v \<Longrightarrow> roman_while v s (res, num) = Some (res, num)"
  by (subst roman_while.simps) simp

lemma roman_while_step: "v \<le> num \<Longrightarrow> roman_while v s (res, num) = roman_while v s (res @ s, num - v)"
  by (subst roman_while.simps) simp

lemma roman_for_greedy:
  assumes "pre @ post = romanNumerals" and "0 \<le> num" and "\<forall>e\<in>set pre. num < entry_value e"
  shows "roman_for post (res, num) = Some (res @ greedy_subtraction num, 0)"
  using assms
proof (induction post arbitrary: pre res num)
  case Nil
  then have "\<lparr>entry_value = 1, entry_numeral = ''I''\<rparr> \<in> set pre" by (auto simp: romanNumerals_def)
  with Nil.prems have "num = 0" by fastforce
  then show ?case by (simp add: greedy_subtraction.simps)
next
  case (Cons e rest)
  have e_in: "e \<in> set romanNumerals" using Cons.prems(1) by (metis in_set_conv_decomp)
  then have e_pos: "1 \<le> entry_value e" by (rule romanNumerals_positive)
  have "strict_desc (pre @ e # rest)" using Cons.prems(1) romanNumerals_desc by simp
  then have below: "\<forall>x\<in>set rest. entry_value x < entry_value e"
    by (auto simp: strict_desc_def sorted_wrt_append)
  from Cons.prems(2,3) show ?case
  proof (induction "nat num" arbitrary: num res rule: less_induct)
    case less
    show ?case
    proof (cases "entry_value e \<le> num")
      case True
      have "largest_not_exceeding num = Some e"
        unfolding largest_not_exceeding_def Cons.prems(1)[symmetric]
        using largest_in_skip[OF less.prems(2)] largest_in_head[OF True below] by simp
      moreover have "0 < num" using True e_pos by simp
      ultimately have g: "greedy_subtraction num = entry_numeral e @ greedy_subtraction (num - entry_value e)"
        by (subst greedy_subtraction.simps) simp
      have "roman_for (e # rest) (res, num) = roman_for (e # rest) (res @ entry_numeral e, num - entry_value e)"
        using True by (simp add: roman_while_step)
      also have "\<dots> = Some ((res @ entry_numeral e) @ greedy_subtraction (num - entry_value e), 0)"
        using True e_pos less.prems by (intro less.hyps) auto
      finally show ?thesis by (simp add: g)
    next
      case False
      then have "roman_for (e # rest) (res, num) = roman_for rest (res, num)"
        by (simp add: roman_while_stop)
      also have "\<dots> = Some (res @ greedy_subtraction num, 0)"
        using False less.prems Cons.prems(1) by (intro Cons.IH[of "pre @ [e]"]) auto
      finally show ?thesis .
    qed
  qed
qed

lemma toRoman_greedy: "0 \<le> n \<Longrightarrow> toRoman n = Some (greedy_subtraction n)"
  using roman_for_greedy[of "[]" romanNumerals n "''''"] by (simp add: toRoman_def)

lemma roman_for_append:
  "roman_for (xs @ ys) st = (case roman_for xs st of None \<Rightarrow> None | Some st' \<Rightarrow> roman_for ys st')"
  by (induction xs arbitrary: st) (auto split: option.splits)

lemma digit_cases:
  assumes "0 \<le> d" and "d < (10::int)"
  obtains "d = 0" | "d = 1" | "d = 2" | "d = 3" | "d = 4" | "d = 5" | "d = 6" | "d = 7" | "d = 8" | "d = 9"
proof -
  from assms have "d = 0 \<or> d = 1 \<or> d = 2 \<or> d = 3 \<or> d = 4 \<or> d = 5 \<or> d = 6 \<or> d = 7 \<or> d = 8 \<or> d = 9"
    by arith
  with that show thesis by blast
qed

lemma thousands_block:
  assumes "0 \<le> r" and "r < 1000" and "0 \<le> d" and "d < 4"
  shows "roman_for [\<lparr>entry_value = 1000, entry_numeral = ''M''\<rparr>] (res, 1000 * d + r)
         = Some (res @ thousands_digits ! nat d, r)"
proof -
  from assms(3,4) consider "d = 0" | "d = 1" | "d = 2" | "d = 3" by arith
  then show ?thesis
    using assms(1,2)
    by cases (simp_all add: roman_while_step roman_while_stop thousands_digits_def)
qed

lemma hundreds_block:
  assumes "0 \<le> r" and "r < 100" and "0 \<le> d" and "d < 10"
  shows "roman_for [\<lparr>entry_value = 900, entry_numeral = ''CM''\<rparr>, \<lparr>entry_value = 500, entry_numeral = ''D''\<rparr>,
                    \<lparr>entry_value = 400, entry_numeral = ''CD''\<rparr>, \<lparr>entry_value = 100, entry_numeral = ''C''\<rparr>]
           (res, 100 * d + r)
         = Some (res @ hundreds_digits ! nat d, r)"
  using assms(3,4)
proof (cases d rule: digit_cases)
qed (use assms(1,2) in \<open>simp_all add: roman_while_step roman_while_stop hundreds_digits_def\<close>)


lemma tens_block:
  assumes "0 \<le> r" and "r < 10" and "0 \<le> d" and "d < 10"
  shows "roman_for [\<lparr>entry_value = 90, entry_numeral = ''XC''\<rparr>, \<lparr>entry_value = 50, entry_numeral = ''L''\<rparr>,
                    \<lparr>entry_value = 40, entry_numeral = ''XL''\<rparr>, \<lparr>entry_value = 10, entry_numeral = ''X''\<rparr>]
           (res, 10 * d + r)
         = Some (res @ tens_digits ! nat d, r)"
  using assms(3,4)
proof (cases d rule: digit_cases)
qed (use assms(1,2) in \<open>simp_all add: roman_while_step roman_while_stop tens_digits_def\<close>)

lemma units_block:
  assumes "0 \<le> d" and "d < 10"
  shows "roman_for [\<lparr>entry_value = 9, entry_numeral = ''IX''\<rparr>, \<lparr>entry_value = 5, entry_numeral = ''V''\<rparr>,
                    \<lparr>entry_value = 4, entry_numeral = ''IV''\<rparr>, \<lparr>entry_value = 1, entry_numeral = ''I''\<rparr>]
           (res, d)
         = Some (res @ units_digits ! nat d, 0)"
  using assms
proof (cases d rule: digit_cases)
qed (simp_all add: roman_while_step roman_while_stop units_digits_def)

lemma romanNumerals_blocks:
  "romanNumerals =
     [\<lparr>entry_value = 1000, entry_numeral = ''M''\<rparr>] @
     [\<lparr>entry_value = 900, entry_numeral = ''CM''\<rparr>, \<lparr>entry_value = 500, entry_numeral = ''D''\<rparr>,
      \<lparr>entry_value = 400, entry_numeral = ''CD''\<rparr>, \<lparr>entry_value = 100, entry_numeral = ''C''\<rparr>] @
     [\<lparr>entry_value = 90, entry_numeral = ''XC''\<rparr>, \<lparr>entry_value = 50, entry_numeral = ''L''\<rparr>,
      \<lparr>entry_value = 40, entry_numeral = ''XL''\<rparr>, \<lparr>entry_value = 10, entry_numeral = ''X''\<rparr>] @
     [\<lparr>entry_value = 9, entry_numeral = ''IX''\<rparr>, \<lparr>entry_value = 5, entry_numeral = ''V''\<rparr>,
      \<lparr>entry_value = 4, entry_numeral = ''IV''\<rparr>, \<lparr>entry_value = 1, entry_numeral = ''I''\<rparr>]"
  by (simp add: romanNumerals_def)

lemma toRoman_standard:
  assumes "0 \<le> n" and "n < 4000"
  shows "toRoman n = Some (standard_numeral n)"
proof -
  define a where "a = n div 1000"
  define b where "b = n div 100 mod 10"
  define c where "c = n div 10 mod 10"
  define d where "d = n mod 10"
  have a: "0 \<le> a" "a < 4" using assms by (auto simp: a_def)
  have b: "0 \<le> b" "b < 10" by (auto simp: b_def)
  have c: "0 \<le> c" "c < 10" by (auto simp: c_def)
  have d: "0 \<le> d" "d < 10" by (auto simp: d_def)
  have q2: "n div 100 = n div 10 div 10"
    using zdiv_zmult2_eq[of 10 n 10] by simp
  have q3: "n div 1000 = n div 100 div 10"
    using zdiv_zmult2_eq[of 10 n 100] by simp
  have "n = 10 * (n div 10) + d" by (simp add: d_def)
  moreover have "n div 10 = 10 * (n div 100) + c" by (simp add: c_def q2)
  moreover have "n div 100 = 10 * a + b" by (simp add: a_def b_def q3)
  ultimately have n1: "n = 1000 * a + (100 * b + (10 * c + d))" by linarith
  have s1: "roman_for [\<lparr>entry_value = 1000, entry_numeral = ''M''\<rparr>] ('''', n)
            = Some ('''' @ thousands_digits ! nat a, 100 * b + (10 * c + d))"
    unfolding n1 using a b c d by (intro thousands_block) auto
  have s2: "roman_for [\<lparr>entry_value = 900, entry_numeral = ''CM''\<rparr>, \<lparr>entry_value = 500, entry_numeral = ''D''\<rparr>,
                       \<lparr>entry_value = 400, entry_numeral = ''CD''\<rparr>, \<lparr>entry_value = 100, entry_numeral = ''C''\<rparr>]
              (res, 100 * b + (10 * c + d)) = Some (res @ hundreds_digits ! nat b, 10 * c + d)" for res
    using b c d by (intro hundreds_block) auto
  have s3: "roman_for [\<lparr>entry_value = 90, entry_numeral = ''XC''\<rparr>, \<lparr>entry_value = 50, entry_numeral = ''L''\<rparr>,
                       \<lparr>entry_value = 40, entry_numeral = ''XL''\<rparr>, \<lparr>entry_value = 10, entry_numeral = ''X''\<rparr>]
              (res, 10 * c + d) = Some (res @ tens_digits ! nat c, d)" for res
    using c d by (intro tens_block) auto
  have s4: "roman_for [\<lparr>entry_value = 9, entry_numeral = ''IX''\<rparr>, \<lparr>entry_value = 5, entry_numeral = ''V''\<rparr>,
                       \<lparr>entry_value = 4, entry_numeral = ''IV''\<rparr>, \<lparr>entry_value = 1, entry_numeral = ''I''\<rparr>]
              (res, d) = Some (res @ units_digits ! nat d, 0)" for res
    using d by (intro units_block) auto
  have "roman_for romanNumerals ('''', n)
        = Some (thousands_digits ! nat a @ hundreds_digits ! nat b @ tens_digits ! nat c @ units_digits ! nat d, 0)"
    by (simp only: romanNumerals_blocks roman_for_append s1 s2 s3 s4 option.case append_Nil append_assoc)
  then show ?thesis
    by (simp add: toRoman_def standard_numeral_def a_def b_def c_def d_def)
qed

section \<open>Properties of the roster operations\<close>

lemma filter_index_none:
  assumes "\<And>i. i < length xs \<Longrightarrow> int (n + i) \<noteq> index"
  shows "map snd (filter (\<lambda>(i, _). int i \<noteq> index) (enumerate n xs)) = xs"
proof -
  have "\<forall>p\<in>set (enumerate n xs). (\<lambda>(i, _). int i \<noteq> index) p"
  proof
    fix p assume "p \<in> set (enumerate n xs)"
    then have "n \<le> fst p" and "fst p < length xs + n" by (auto simp: in_set_enumerate_eq)
    then have "fst p - n < length xs" and "n + (fst p - n) = fst p" by auto
    with assms[of "fst p - n"] show "(\<lambda>(i, _). int i \<noteq> index) p" by (cases p) auto
  qed
  then have "filter (\<lambda>(i, _). int i \<noteq> index) (enumerate n xs) = enumerate n xs"
    by (simp add: filter_id_conv)
  then show ?thesis by simp
qed

lemma filter_index_enumerate:
  "map snd (filter (\<lambda>(i, _). int i \<noteq> int (n + k)) (enumerate n xs)) = take k xs @ drop (Suc k) xs"
proof (induction xs arbitrary: n k)
  case Nil
  then show ?case by simp
next
  case (Cons x xs)
  show ?case
  proof (cases k)
    case 0
    have "map snd (filter (\<lambda>(i, _). int i \<noteq> int n) (enumerate (Suc n) xs)) = xs"
      by (rule filter_index_none) simp
    with 0 show ?thesis by simp
  next
    case (Suc k')
    with Cons.IH[of "Suc n" k'] show ?thesis by simp
  qed
qed

lemma filter_index_nat: "filter_index (int k) xs = take k xs @ drop (Suc k) xs"
  using filter_index_enumerate[of 0 k xs] by (simp add: filter_index_def)

lemma filter_index_invalid:
  "\<not> (0 \<le> index \<and> index < int (length xs)) \<Longrightarrow> filter_index index xs = xs"
  unfolding filter_index_def by (rule filter_index_none) auto

lemma filter_index_valid:
  "0 \<le> index \<Longrightarrow> index < int (length xs) \<Longrightarrow>
   filter_index index xs = take (nat index) xs @ drop (Suc (nat index)) xs"
  using filter_index_nat[of "nat index" xs] by simp

lemma length_filter_index:
  "length (filter_index index xs) =
     (if 0 \<le> index \<and> index < int (length xs) then length xs - 1 else length xs)"
proof (cases "0 \<le> index \<and> index < int (length xs)")
  case True
  then have "nat index < length xs" by auto
  with True show ?thesis by (simp add: filter_index_valid)
next
  case False
  then have "filter_index index xs = xs" by (rule filter_index_invalid)
  with False show ?thesis by auto
qed

lemma authors_handleInputChange: "authors (handleInputChange c d) = authors d"
  by (cases c) simp_all

lemma formData_handleSubmit: "formData (state_after (handleSubmit outcome s)) = formData s"
  by (simp add: handleSubmit_def Let_def split: fetch_outcome.splits sum.splits)

lemma length_sectionHandlers: "length (sectionHandlers d) = length (sections d)"
  by (simp add: sectionHandlers_def)

lemma sectionHandlers_nth:
  "position < length (sections d) \<Longrightarrow>
   (sectionHandlers d ! position) v prev = sectionContentChange (int position) v d prev"
  by (simp add: sectionHandlers_def nth_enumerate_eq)

lemma authors_sectionContentChange:
  "sectionContentChange index v rendered prev = Inr d \<Longrightarrow> authors d = authors prev"
  by (auto simp: sectionContentChange_def split: if_splits)

text \<open>
  The floor of one author holds in every session, whatever render each handler comes
  from: a handler that writes an array derived from its render writes one with an entry.
\<close>

lemma roster_floor_step:
  assumes "1 \<le> length (authors (formData s))"
  shows "1 \<le> length (authors (formData (step e s)))"
proof (cases e)
  case (InputChange c)
  with assms show ?thesis by (simp add: authors_handleInputChange)
next
  case (AuthorChange rendered index field v)
  with assms show ?thesis
    by (auto simp: handleAuthorChange_def)
next
  case (AddAuthor rendered)
  with assms show ?thesis by (simp add: addAuthor_def)
next
  case (RemoveAuthor rendered index)
  with assms show ?thesis
    by (auto simp: removeAuthor_def length_filter_index)
next
  case (SectionChange rendered position v)
  with assms show ?thesis
    by (auto simp: sectionHandlers_nth length_sectionHandlers split: sum.splits
        dest: authors_sectionContentChange)
next
  case (Submit outcome)
  with assms show ?thesis by (simp add: formData_handleSubmit)
next
  case Download
  with assms show ?thesis by simp
qed

lemma roster_floor_run:
  "1 \<le> length (authors (formData s)) \<Longrightarrow> 1 \<le> length (authors (formData (run evs s)))"
  unfolding run_def
proof (induction evs arbitrary: s)
  case Nil
  then show ?case by simp
next
  case (Cons e es)
  from Cons.prems have "1 \<le> length (authors (formData (step e s)))"
    by (rule roster_floor_step)
  then have "1 \<le> length (authors (formData (fold step es (step e s))))"
    by (rule Cons.IH)
  then show ?case by simp
qed

lemma roster_floor: "1 \<le> length (authors (formData (run evs initialState)))"
  by (rule roster_floor_run) (simp add: initialState_def initialFormData_def)

text \<open>
  The ceiling of six holds in the sessions whose handlers all come from the latest render:
  there the test of \<open>addAuthor\<close> reads the roster it appends to.
\<close>

lemma roster_ceiling_step:
  assumes "length (authors (formData s)) \<le> 6"
    and "case rendered_of e of None \<Rightarrow> True | Some rendered \<Rightarrow> rendered = formData s"
  shows "length (authors (formData (step e s))) \<le> 6"
proof (cases e)
  case (InputChange c)
  with assms show ?thesis by (simp add: authors_handleInputChange)
next
  case (AuthorChange rendered index field v)
  with assms show ?thesis
    by (auto simp: handleAuthorChange_def)
next
  case (AddAuthor rendered)
  with assms show ?thesis by (simp add: addAuthor_def)
next
  case (RemoveAuthor rendered index)
  with assms show ?thesis
    by (auto simp: removeAuthor_def length_filter_index)
next
  case (SectionChange rendered position v)
  with assms show ?thesis
    by (auto simp: sectionHandlers_nth length_sectionHandlers split: sum.splits
        dest: authors_sectionContentChange)
next
  case (Submit outcome)
  with assms show ?thesis by (simp add: formData_handleSubmit)
next
  case Download
  with assms show ?thesis by simp
qed

lemma roster_ceiling_latest_render:
  "latest_render evs s \<Longrightarrow> length (authors (formData s)) \<le> 6 \<Longrightarrow>
   length (authors (formData (run evs s))) \<le> 6"
  unfolding run_def
proof (induction evs arbitrary: s)
  case Nil
  then show ?case by simp
next
  case (Cons e es)
  from Cons.prems have "length (authors (formData (step e s))) \<le> 6"
    by (intro roster_ceiling_step) simp_all
  with Cons.prems Cons.IH[of "step e s"] show ?case by simp
qed

lemma pdfUrl_step_keep: "\<not> successful_submit e \<Longrightarrow> pdfUrl (step e s) = pdfUrl s"
proof (cases e)
  case (Submit outcome)
  assume "\<not> successful_submit e"
  with Submit show ?thesis
    by (cases outcome) (auto simp: handleSubmit_def Let_def split: sum.splits)
qed (auto split: sum.splits)

lemma pdfUrl_run_keep: "\<forall>e\<in>set evs. \<not> successful_submit e \<Longrightarrow> pdfUrl (run evs s) = pdfUrl s"
  unfolding run_def by (induction evs arbitrary: s) (simp_all add: pdfUrl_step_keep)

lemma run_append: "run (xs @ ys) s = run ys (run xs s)"
  by (simp add: run_def)

section \<open>Properties of the serialisation\<close>

lemma map_eq_inj:
  "map f xs = map f ys \<Longrightarrow> (\<And>x y. x \<in> set xs \<Longrightarrow> f x = f y \<Longrightarrow> x = y) \<Longrightarrow> xs = ys"
proof (induction xs arbitrary: ys)
  case Nil
  then show ?case by simp
next
  case (Cons x xs)
  then obtain y ys' where ys: "ys = y # ys'" by (cases ys) auto
  with Cons.prems have "f x = f y" and "map f xs = map f ys'" by simp_all
  with Cons.prems(2) Cons.IH[of ys'] ys show ?case by auto
qed

lemma author_json_inj: "author_json a = author_json b \<Longrightarrow> a = b"
  by (simp add: author_json_def)

lemma section_json_inj: "section_json x = section_json y \<Longrightarrow> x = y"
proof (induction x arbitrary: y rule: section_json.induct)
  case (1 t c subs)
  obtain t' c' subs' where y: "y = Section t' c' subs'" by (cases y)
  show ?case
  proof (cases subs)
    case None
    with "1.prems" y show ?thesis by (cases subs') simp_all
  next
    case (Some ss)
    with "1.prems" y obtain ss' where ss': "subs' = Some ss'" by (cases subs') simp_all
    from "1.prems" y Some ss' have eq: "t = t'" "c = c'" "map section_json ss = map section_json ss'"
      by simp_all
    from eq(3) have "ss = ss'"
      by (rule map_eq_inj) (use "1.IH" Some in blast)
    with eq y Some ss' show ?thesis by simp
  qed
qed

lemma formData_json_inj: "formData_json d = formData_json d' \<Longrightarrow> d = d'"
proof -
  assume "formData_json d = formData_json d'"
  then have "title d = title d'" "paperNotice d = paperNotice d'" "funding d = funding d'"
    "dropCap d = dropCap d'" "map author_json (authors d) = map author_json (authors d')"
    "abstract d = abstract d'" "keywords d = keywords d'"
    "map section_json (sections d) = map section_json (sections d')" "references d = references d'"
    by (simp_all add: formData_json_def)
  moreover from this(5) have "authors d = authors d'"
    by (rule map_eq_inj) (rule author_json_inj)
  moreover from calculation(8) have "sections d = sections d'"
    by (rule map_eq_inj) (rule section_json_inj)
  ultimately show "d = d'" by simp
qed


lemma sectionLabels_nth: "i < length sects \<Longrightarrow> sectionLabels sects ! i = sectionLabel i"
  by (simp add: sectionLabels_def nth_enumerate_eq)

lemma toRoman_spot_values:
  "toRoman 1 = Some ''I''" "toRoman 4 = Some ''IV''" "toRoman 9 = Some ''IX''"
  "toRoman 14 = Some ''XIV''" "toRoman 19 = Some ''XIX''" "toRoman 20 = Some ''XX''"
  "toRoman 40 = Some ''XL''" "toRoman 90 = Some ''XC''" "toRoman 400 = Some ''CD''"
  "toRoman 900 = Some ''CM''" "toRoman 3999 = Some ''MMMCMXCIX''"
  by code_simp+

section \<open>The claims\<close>

subsection \<open>C1: the encoder on 1 to 3999\<close>

text \<open>
  C1. For every integer \<open>n\<close> from 1 to 3999, \<open>toRoman n\<close> returns, and what it returns is
  the numeral that greedy subtraction over the descending table produces (repeatedly
  subtract the largest table value not exceeding \<open>n\<close> and append its symbol); this numeral is
  the standard positional one. In particular 1, 4, 9, 14, 19, 20, 40, 90, 400, 900 and 3999
  give I, IV, IX, XIV, XIX, XX, XL, XC, CD, CM and MMMCMXCIX.
\<close>

theorem toRoman_canonical:
  "(1 \<le> n \<and> n \<le> 3999 \<longrightarrow>
      toRoman n = Some (greedy_subtraction n) \<and> toRoman n = Some (standard_numeral n)) \<and>
   toRoman 1 = Some ''I'' \<and> toRoman 4 = Some ''IV'' \<and> toRoman 9 = Some ''IX'' \<and>
   toRoman 14 = Some ''XIV'' \<and> toRoman 19 = Some ''XIX'' \<and> toRoman 20 = Some ''XX'' \<and>
   toRoman 40 = Some ''XL'' \<and> toRoman 90 = Some ''XC'' \<and> toRoman 400 = Some ''CD'' \<and>
   toRoman 900 = Some ''CM'' \<and> toRoman 3999 = Some ''MMMCMXCIX''"
proof -
  have g: "toRoman n = Some (greedy_subtraction n)" if "1 \<le> n \<and> n \<le> 3999"
    using that by (intro toRoman_greedy) simp
  have p: "toRoman n = Some (standard_numeral n)" if "1 \<le> n \<and> n \<le> 3999"
    using that by (intro toRoman_standard) simp_all
  from g p show ?thesis
    using toRoman_spot_values by blast
qed

theorem toRoman_canonical_witness:
  "(1::int) \<le> 1994 \<and> (1994::int) \<le> 3999 \<and> toRoman 1994 = Some ''MCMXCIV'' \<and>
   greedy_subtraction 1994 = ''MCMXCIV'' \<and> standard_numeral 1994 = ''MCMXCIV''"
proof -
  have v: "toRoman 1994 = Some ''MCMXCIV''" by code_simp
  have h: "(1::int) \<le> 1994 \<and> (1994::int) \<le> 3999" by simp
  with toRoman_canonical[of 1994]
  have "toRoman 1994 = Some (greedy_subtraction 1994)"
    and "toRoman 1994 = Some (standard_numeral 1994)" by blast+
  with v h show ?thesis by simp
qed

subsection \<open>C2: the ceiling of six authors\<close>


subsection \<open>C3: removing an author\<close>


subsection \<open>C4: section labels\<close>

text \<open>
  C4. In every section list the label at index 0 is "Introduction", and at every index
  \<open>i\<close> from 1 on it is "Section " followed by what \<open>toRoman (i + 1)\<close> returns (and
  \<open>toRoman\<close> does return there); index 1 is labelled "Section II".
\<close>

theorem section_label:
  assumes "i < length sects"
  shows "(i = 0 \<longrightarrow> sectionLabels sects ! i = Some ''Introduction'') \<and>
         (1 \<le> i \<longrightarrow> (\<exists>r. toRoman (int i + 1) = Some r \<and>
                            sectionLabels sects ! i = Some (''Section '' @ r))) \<and>
         (i = 1 \<longrightarrow> sectionLabels sects ! i = Some ''Section II'')"
proof -
  have "toRoman (int i + 1) = Some (greedy_subtraction (int i + 1))"
    by (rule toRoman_greedy) simp
  moreover have "toRoman 2 = Some ''II''" by code_simp
  ultimately show ?thesis
    using assms by (auto simp: sectionLabels_nth sectionLabel_def)
qed

theorem section_label_witness:
  "sectionLabels (sections initialFormData) ! 0 = Some ''Introduction'' \<and>
   sectionLabels (sections initialFormData) ! 1 = Some ''Section II'' \<and>
   toRoman (int 1 + 1) = Some ''II''"
proof -
  have l: "(0::nat) < length (sections initialFormData)" "(1::nat) < length (sections initialFormData)"
    by (simp_all add: initialFormData_def)
  have "toRoman (int 1 + 1) = Some ''II''" by code_simp
  with section_label[OF l(1)] section_label[OF l(2)] show ?thesis by simp
qed

subsection \<open>C5: the request\<close>

text \<open>
  C5, as the code has it. For every state, \<open>handleSubmit\<close> sends one request: a POST to
  \<open>/api/generate-pdf\<close> with the header \<open>Content-Type: application/json\<close>, whose body is
  the document as one flat JSON object with the members \<open>title\<close>, \<open>paperNotice\<close>,
  \<open>funding\<close>, \<open>dropCap\<close>, \<open>authors\<close>, \<open>abstract\<close>, \<open>keywords\<close>, \<open>sections\<close>,
  \<open>references\<close>, in this order; \<open>authors\<close> and \<open>sections\<close> are arrays of objects, an
  author with its seven fields and a section with \<open>title\<close>, \<open>content\<close> and, where it has
  one, \<open>subsections\<close>. The body is the document verbatim: different documents have
  different bodies. The flag is sent under the name \<open>dropCap\<close>.
\<close>

theorem submit_request:
  "request_sent (handleSubmit outcome s) =
     \<lparr>url = ''/api/generate-pdf'', http_method = ''POST'',
      headers = [(''Content-Type'', ''application/json'')],
      body = formData_json (formData s)\<rparr> \<and>
   formData_json d =
     JObject [(''title'', JString (title d)), (''paperNotice'', JString (paperNotice d)),
              (''funding'', JString (funding d)), (''dropCap'', JBool (dropCap d)),
              (''authors'', JArray (map author_json (authors d))),
              (''abstract'', JString (abstract d)), (''keywords'', JString (keywords d)),
              (''sections'', JArray (map section_json (sections d))),
              (''references'', JString (references d))] \<and>
   member_names (author_json a) =
     [''firstName'', ''lastName'', ''membership'', ''department'', ''organization'',
      ''cityCountry'', ''email''] \<and>
   member_names (section_json x) =
     [''title'', ''content''] @ (case subsections x of None \<Rightarrow> [] | Some ss \<Rightarrow> [''subsections'']) \<and>
   (d \<noteq> d' \<longrightarrow> formData_json d \<noteq> formData_json d')"
proof -
  have "formData_json d \<noteq> formData_json d'" if "d \<noteq> d'"
    using that formData_json_inj by blast
  moreover have "member_names (section_json x) =
     [''title'', ''content''] @ (case subsections x of None \<Rightarrow> [] | Some ss \<Rightarrow> [''subsections''])"
    by (cases x) (simp split: option.splits)
  moreover have "request_sent (handleSubmit outcome s) = generate_request (formData s)"
    by (simp add: handleSubmit_def Let_def split: fetch_outcome.splits sum.splits)
  ultimately show ?thesis
    by (simp add: generate_request_def formData_json_def author_json_def)
qed

theorem submit_request_witness:
  "initialFormData \<noteq> six_authors \<and>
   formData_json initialFormData \<noteq> formData_json six_authors \<and>
   body (request_sent (handleSubmit (NetworkError ''x'') initialState)) =
     JObject [(''title'', JString ''''), (''paperNotice'', JString ''''),
              (''funding'', JString ''''), (''dropCap'', JBool True),
              (''authors'', JArray [JObject [(''firstName'', JString ''''), (''lastName'', JString ''''),
                 (''membership'', JString ''''), (''department'', JString ''''),
                 (''organization'', JString ''''), (''cityCountry'', JString ''''),
                 (''email'', JString '''')]]),
              (''abstract'', JString ''''), (''keywords'', JString ''''),
              (''sections'', JArray [JObject [(''title'', JString ''Introduction''), (''content'', JString '''')],
                 JObject [(''title'', JString ''Section II''), (''content'', JString ''''),
                          (''subsections'', JArray [])]]),
              (''references'', JString '''')]"
proof -
  have "length (authors initialFormData) \<noteq> length (authors six_authors)"
    by (simp add: six_authors_def initialFormData_def)
  then have h: "initialFormData \<noteq> six_authors" by auto
  note t = submit_request[of "NetworkError ''x''" initialState initialFormData emptyAuthor
      "Section ''Introduction'' '''' None" six_authors]
  from t h have a: "formData_json initialFormData \<noteq> formData_json six_authors"
    by blast
  from t have "body (request_sent (handleSubmit (NetworkError ''x'') initialState)) =
          formData_json (formData initialState)"
    by simp
  then have b: "body (request_sent (handleSubmit (NetworkError ''x'') initialState)) =
     JObject [(''title'', JString ''''), (''paperNotice'', JString ''''),
              (''funding'', JString ''''), (''dropCap'', JBool True),
              (''authors'', JArray [JObject [(''firstName'', JString ''''), (''lastName'', JString ''''),
                 (''membership'', JString ''''), (''department'', JString ''''),
                 (''organization'', JString ''''), (''cityCountry'', JString ''''),
                 (''email'', JString '''')]]),
              (''abstract'', JString ''''), (''keywords'', JString ''''),
              (''sections'', JArray [JObject [(''title'', JString ''Introduction''), (''content'', JString '''')],
                 JObject [(''title'', JString ''Section II''), (''content'', JString ''''),
                          (''subsections'', JArray [])]]),
              (''references'', JString '''')]"
    by (simp add: formData_json_def author_json_def initialState_def initialFormData_def emptyAuthor_def)
  from h a b show ?thesis by blast
qed

text \<open>
  The member names of the body sent for the default document are not the list that has
  \<open>dropCapEnabled\<close> in the fourth place, and no member has that name.
\<close>

theorem submit_request_counterexample:
  "member_names (body (request_sent (handleSubmit (Response 200 (Inr ''1'')) initialState))) \<noteq>
     [''title'', ''paperNotice'', ''funding'', ''dropCapEnabled'', ''authors'', ''abstract'',
      ''keywords'', ''sections'', ''references''] \<and>
   ''dropCapEnabled'' \<notin> set (member_names (body (request_sent (handleSubmit (Response 200 (Inr ''1'')) initialState))))"
  by (simp add: handleSubmit_def Let_def generate_request_def formData_json_def ok_def)

subsection \<open>C6: failed generation\<close>

text \<open>
  C6, as the code has it. A response whose status is not 2xx makes \<open>handleSubmit\<close> write
  \<open>'Error generating PDF'\<close> with \<open>console.error\<close>, and an exchange without a response
  makes it write \<open>'Error:'\<close> and the caught error. Neither is given to the caller as an
  error: the promise of \<open>handleSubmit\<close> is fulfilled in both cases. In both cases the
  state after the call is the state before it: no object URL is stored and a stored one is
  not replaced.
\<close>

theorem failed_generation:
  "(\<not> ok status \<longrightarrow>
      console (handleSubmit (Response status b) s) = [ConsoleError [''Error generating PDF'']] \<and>
      handleSubmit_promise (Response status b) s = Fulfilled \<and>
      state_after (handleSubmit (Response status b) s) = s) \<and>
   console (handleSubmit (NetworkError msg) s) = [ConsoleError [''Error:'', msg]] \<and>
   handleSubmit_promise (NetworkError msg) s = Fulfilled \<and>
   state_after (handleSubmit (NetworkError msg) s) = s"
  by (simp add: handleSubmit_def handleSubmit_promise_def Let_def)

theorem failed_generation_witness:
  "\<not> ok 500 \<and>
   console (handleSubmit (Response 500 (Inr ''1'')) state_with_pdf)
     = [ConsoleError [''Error generating PDF'']] \<and>
   pdfUrl (state_after (handleSubmit (Response 500 (Inr ''1'')) state_with_pdf)) = Some ''blob:0'' \<and>
   console (handleSubmit (NetworkError ''Failed to fetch'') state_with_pdf)
     = [ConsoleError [''Error:'', ''Failed to fetch'']] \<and>
   pdfUrl (state_after (handleSubmit (NetworkError ''Failed to fetch'') state_with_pdf)) = Some ''blob:0''"
proof -
  have h: "\<not> ok 500" by (simp add: ok_def)
  with failed_generation[of 500 "Inr ''1''" state_with_pdf "''Failed to fetch''"]
  show ?thesis by (simp add: state_with_pdf_def)
qed

text \<open>
  What \<open>handleSubmit\<close> gives its caller after a rejected request and after a failed
  transport is what it gives after a successful exchange: a fulfilled promise, no error.
\<close>

theorem failed_generation_counterexample:
  "handleSubmit_promise (Response 500 (Inr ''1'')) state_with_pdf = Fulfilled \<and>
   handleSubmit_promise (NetworkError ''Failed to fetch'') state_with_pdf = Fulfilled \<and>
   handleSubmit_promise (Response 200 (Inr ''1'')) state_with_pdf = Fulfilled"
  by (simp add: handleSubmit_promise_def ok_def)

subsection \<open>C7: downloading\<close>

text \<open>
  C7, as the code has it. As long as no submit of the session has been successful,
  \<open>downloadPdf\<close> does nothing: no file is delivered (and no error is raised). Once a
  submit has been successful, every later call of \<open>downloadPdf\<close>, the first and each one
  after it, delivers the artifact of the latest successful submit as
  \<open>ieee_conference_paper.pdf\<close>, whatever other handlers were called in between.
\<close>

theorem download_artifact:
  "((\<forall>e\<in>set evs. \<not> successful_submit e) \<longrightarrow> downloadPdf (run evs initialState) = None) \<and>
   (ok status \<and> (\<forall>e\<in>set later. \<not> successful_submit e) \<longrightarrow>
      downloadPdf (run (evs @ [Submit (Response status (Inr blob_id))] @ later) initialState) =
        Some \<lparr>href = createObjectURL blob_id, download = ''ieee_conference_paper.pdf''\<rparr>)"
proof -
  have a: "downloadPdf (run evs initialState) = None" if "\<forall>e\<in>set evs. \<not> successful_submit e"
    using pdfUrl_run_keep[OF that, of initialState] by (simp add: downloadPdf_def initialState_def)
  have b: "downloadPdf (run (evs @ [Submit (Response status (Inr blob_id))] @ later) initialState) =
             Some \<lparr>href = createObjectURL blob_id, download = ''ieee_conference_paper.pdf''\<rparr>"
    if "ok status" and "\<forall>e\<in>set later. \<not> successful_submit e"
  proof -
    have "pdfUrl (run (evs @ [Submit (Response status (Inr blob_id))] @ later) initialState) =
            pdfUrl (run [Submit (Response status (Inr blob_id))] (run evs initialState))"
      by (simp only: run_append pdfUrl_run_keep[OF that(2)])
    also have "\<dots> = Some (createObjectURL blob_id)"
      using that(1) by (simp add: run_def handleSubmit_def Let_def)
    finally show ?thesis by (simp add: downloadPdf_def createObjectURL_def)
  qed
  from a b show ?thesis by blast
qed

theorem download_artifact_witness:
  "filter successful_submit
     [AddAuthor initialFormData, Submit (Response 500 (Inr ''0'')), Submit (NetworkError ''x''), Download] = [] \<and>
   downloadPdf (run [AddAuthor initialFormData, Submit (Response 500 (Inr ''0'')), Submit (NetworkError ''x''), Download]
                  initialState) = None \<and>
   ok 200 \<and> filter successful_submit [Download, Download, AddAuthor initialFormData] = [] \<and>
   downloadPdf (run [Submit (Response 200 (Inr ''7'')), Download, Download, AddAuthor initialFormData] initialState) =
     Some \<lparr>href = ''blob:7'', download = ''ieee_conference_paper.pdf''\<rparr>"
proof -
  have h1: "\<forall>e\<in>set [AddAuthor initialFormData, Submit (Response 500 (Inr ''0'')), Submit (NetworkError ''x''), Download].
              \<not> successful_submit e"
    by (simp add: ok_def)
  have h2: "ok 200" "\<forall>e\<in>set [Download, Download, AddAuthor initialFormData]. \<not> successful_submit e"
    by (simp_all add: ok_def)
  from download_artifact[of "[AddAuthor initialFormData, Submit (Response 500 (Inr ''0'')), Submit (NetworkError ''x''), Download]"
      200 "[]" "''0''"] h1
  have a: "downloadPdf (run [AddAuthor initialFormData, Submit (Response 500 (Inr ''0'')), Submit (NetworkError ''x''), Download]
                  initialState) = None" by blast
  from download_artifact[of "[]" 200 "[Download, Download, AddAuthor initialFormData]" "''7''"] h2
  have b: "downloadPdf (run [Submit (Response 200 (Inr ''7'')), Download, Download, AddAuthor initialFormData] initialState) =
     Some \<lparr>href = ''blob:7'', download = ''ieee_conference_paper.pdf''\<rparr>"
    by (simp add: createObjectURL_def)
  from h1 have f1: "filter successful_submit
     [AddAuthor initialFormData, Submit (Response 500 (Inr ''0'')), Submit (NetworkError ''x''), Download] = []"
    by (simp only: filter_empty_conv) 
  from h2(2) have f2: "filter successful_submit [Download, Download, AddAuthor initialFormData] = []"
    by (simp only: filter_empty_conv)
  from f1 f2 h2(1) a b show ?thesis by blast
qed

text \<open>
  After one successful submit, the first download delivers the file, and so do the second
  and the third: a handle is not used up by a download.
\<close>

theorem download_artifact_counterexample:
  "downloadPdf (run [Submit (Response 200 (Inr ''7''))] initialState) =
     Some \<lparr>href = ''blob:7'', download = ''ieee_conference_paper.pdf''\<rparr> \<and>
   downloadPdf (run [Submit (Response 200 (Inr ''7'')), Download] initialState) =
     Some \<lparr>href = ''blob:7'', download = ''ieee_conference_paper.pdf''\<rparr> \<and>
   downloadPdf (run [Submit (Response 200 (Inr ''7'')), Download, Download] initialState) =
     Some \<lparr>href = ''blob:7'', download = ''ieee_conference_paper.pdf''\<rparr>"
  by (simp add: run_def handleSubmit_def Let_def ok_def downloadPdf_def createObjectURL_def
      initialState_def)

subsection \<open>C8: required inputs and submission\<close>

text \<open>
  C8, as the code has it. In the form of the default document the required inputs with an
  empty value are, in document order, the title, the six required fields of the single
  author (first name, last name, department, organization, city and country, email), the
  abstract and the keywords: one for every required field that is empty, the same fields
  that the specification's validation lists there. A submission through the form while a
  required input is empty is refused: \<open>handleSubmit\<close> is not called, so no request is sent
  and no state is set, and the inputs that are missing a value are marked. The test is for
  the empty string, without trimming; where no required input is empty the form calls
  \<open>handleSubmit\<close>, which sends the request.
\<close>

theorem required_inputs:
  "missingRequired initialFormData =
     [TitleInput, AuthorInput 0 FirstName, AuthorInput 0 LastName, AuthorInput 0 Department,
      AuthorInput 0 Organization, AuthorInput 0 CityCountry, AuthorInput 0 Email,
      AbstractInput, KeywordsInput] \<and>
   validateForSubmission_spec initialFormData = map RequiredFieldEmpty (missingRequired initialFormData) \<and>
   (missingRequired (formData s) \<noteq> [] \<longrightarrow>
      submitForm outcome s = Blocked (missingRequired (formData s))) \<and>
   (missingRequired (formData s) = [] \<longrightarrow>
      submitForm outcome s = Handled (handleSubmit outcome s) \<and>
      request_sent (handleSubmit outcome s) = generate_request (formData s))"
proof -
  have m: "missingRequired initialFormData =
     [TitleInput, AuthorInput 0 FirstName, AuthorInput 0 LastName, AuthorInput 0 Department,
      AuthorInput 0 Organization, AuthorInput 0 CityCountry, AuthorInput 0 Email,
      AbstractInput, KeywordsInput]"
    by (simp add: missingRequired_def formInputs_def authorInputs_def sectionInput_def
        valueMissing_def initialFormData_def emptyAuthor_def enumerate_eq_zip)
  have v: "validateForSubmission_spec initialFormData =
     map RequiredFieldEmpty
       [TitleInput, AuthorInput 0 FirstName, AuthorInput 0 LastName, AuthorInput 0 Department,
        AuthorInput 0 Organization, AuthorInput 0 CityCountry, AuthorInput 0 Email,
        AbstractInput, KeywordsInput]"
    by (simp add: validateForSubmission_spec_def spec_required_fields_def trim_def
        initialFormData_def emptyAuthor_def enumerate_eq_zip)
  have r: "request_sent (handleSubmit outcome s) = generate_request (formData s)"
    by (simp add: handleSubmit_def Let_def split: fetch_outcome.splits sum.splits)
  from m v r show ?thesis
    by (simp add: submitForm_def)
qed

theorem required_inputs_witness:
  "missingRequired (formData initialState) \<noteq> [] \<and>
   submitForm (Response 200 (Inr ''7'')) initialState =
     Blocked [TitleInput, AuthorInput 0 FirstName, AuthorInput 0 LastName, AuthorInput 0 Department,
              AuthorInput 0 Organization, AuthorInput 0 CityCountry, AuthorInput 0 Email,
              AbstractInput, KeywordsInput] \<and>
   missingRequired (formData \<lparr>formData = blanks_document, pdfUrl = None\<rparr>) = [] \<and>
   submitForm (Response 200 (Inr ''7'')) \<lparr>formData = blanks_document, pdfUrl = None\<rparr> =
     Handled (handleSubmit (Response 200 (Inr ''7'')) \<lparr>formData = blanks_document, pdfUrl = None\<rparr>)"
proof -
  note t1 = required_inputs[of initialState "Response 200 (Inr ''7'')"]
  note t2 = required_inputs[of "\<lparr>formData = blanks_document, pdfUrl = None\<rparr>" "Response 200 (Inr ''7'')"]
  from t1 have m: "missingRequired (formData initialState) =
     [TitleInput, AuthorInput 0 FirstName, AuthorInput 0 LastName, AuthorInput 0 Department,
      AuthorInput 0 Organization, AuthorInput 0 CityCountry, AuthorInput 0 Email,
      AbstractInput, KeywordsInput]"
    by (simp add: initialState_def)
  then have h1: "missingRequired (formData initialState) \<noteq> []" by simp
  with t1 m have a: "submitForm (Response 200 (Inr ''7'')) initialState =
     Blocked [TitleInput, AuthorInput 0 FirstName, AuthorInput 0 LastName, AuthorInput 0 Department,
              AuthorInput 0 Organization, AuthorInput 0 CityCountry, AuthorInput 0 Email,
              AbstractInput, KeywordsInput]"
    by simp
  have h2: "missingRequired (formData \<lparr>formData = blanks_document, pdfUrl = None\<rparr>) = []"
    by (simp add: missingRequired_def formInputs_def authorInputs_def sectionInput_def
        valueMissing_def blanks_document_def initialFormData_def enumerate_eq_zip)
  with t2 have b: "submitForm (Response 200 (Inr ''7'')) \<lparr>formData = blanks_document, pdfUrl = None\<rparr> =
     Handled (handleSubmit (Response 200 (Inr ''7'')) \<lparr>formData = blanks_document, pdfUrl = None\<rparr>)"
    by blast
  from h1 a h2 b show ?thesis by blast
qed

text \<open>
  After one blank was typed into every required input of the default document, every
  required field is still empty after trimming, so the specification's validation lists
  nine violations; yet the form is submitted: the request is sent, nothing is reported,
  and the object URL of the answer is stored.
\<close>

theorem required_inputs_counterexample:
  "validateForSubmission_spec blanks_document =
     [RequiredFieldEmpty TitleInput, RequiredFieldEmpty (AuthorInput 0 FirstName),
      RequiredFieldEmpty (AuthorInput 0 LastName), RequiredFieldEmpty (AuthorInput 0 Department),
      RequiredFieldEmpty (AuthorInput 0 Organization), RequiredFieldEmpty (AuthorInput 0 CityCountry),
      RequiredFieldEmpty (AuthorInput 0 Email), RequiredFieldEmpty AbstractInput,
      RequiredFieldEmpty KeywordsInput] \<and>
   submitForm (Response 200 (Inr ''7'')) \<lparr>formData = blanks_document, pdfUrl = None\<rparr> =
     Handled \<lparr>request_sent = generate_request blanks_document,
              state_after = \<lparr>formData = blanks_document, pdfUrl = Some ''blob:7''\<rparr>,
              console = []\<rparr>"
  by (simp add: validateForSubmission_spec_def spec_required_fields_def trim_def whitespace_def
      submitForm_def missingRequired_def formInputs_def authorInputs_def sectionInput_def
      valueMissing_def handleSubmit_def Let_def ok_def createObjectURL_def
      blanks_document_def initialFormData_def enumerate_eq_zip)

subsection \<open>C9: changing a field of an author or the content of a section\<close>




subsection \<open>C10: the encoder below 1\<close>

text \<open>
  C10. For every integer \<open>n\<close> that is 0 or negative, \<open>toRoman n\<close> returns, and returns the
  empty string: every loop test fails at once, so the loop state \<open>(result, num)\<close> leaves
  the table as it entered and no value is subtracted.
\<close>

theorem toRoman_nonpositive:
  "n \<le> 0 \<Longrightarrow> toRoman n = Some '''' \<and> roman_for romanNumerals ('''', n) = Some ('''', n)"
  by (simp add: toRoman_def romanNumerals_def roman_while_stop)

theorem toRoman_nonpositive_witness:
  "(-7::int) \<le> 0 \<and> toRoman (-7) = Some '''' \<and> toRoman 0 = Some ''''"
  using toRoman_nonpositive[of "-7"] toRoman_nonpositive[of 0] by simp

end
